theory Spec2Isabelle
  imports Main "HOL-Library.AList"
begin

section \<open>Values shared by the two forms\<close>

text \<open>
  \<^verbatim>\<open>FormErrors<T>\<close> is a JavaScript object from the field names of \<open>T\<close> to
  \<^verbatim>\<open>string | undefined\<close>. It is kept as an association list in insertion order;
  the value \<open>None\<close> is a key that is present and holds \<^verbatim>\<open>undefined\<close>.
\<close>

type_synonym 'k FormErrors = "('k \<times> string option) list"

text \<open>\<^verbatim>\<open>errors[name]\<close>: \<^verbatim>\<open>undefined\<close> for an absent key as for a key holding it.\<close>

definition lookup_error :: "'k FormErrors \<Rightarrow> 'k \<Rightarrow> string option" where
  "lookup_error e k = (case map_of e k of None \<Rightarrow> None | Some v \<Rightarrow> v)"

text \<open>JavaScript truthiness of a \<^verbatim>\<open>string | undefined\<close>, and of a string.\<close>

definition truthy :: "string option \<Rightarrow> bool" where
  "truthy v = (case v of None \<Rightarrow> False | Some m \<Rightarrow> m \<noteq> [])"

text \<open>\<^verbatim>\<open>a || b\<close> on an optional string and a string literal.\<close>

definition or_else :: "string option \<Rightarrow> string \<Rightarrow> string" where
  "or_else v d = (case v of None \<Rightarrow> d | Some m \<Rightarrow> if m = [] then d else m)"

text \<open>\<^verbatim>\<open>Object.keys(o).length > 0\<close>.\<close>

definition has_keys :: "'k FormErrors \<Rightarrow> bool" where
  "has_keys e = (0 < length (map fst e))"

text \<open>
  The result shape of a server action, \<^verbatim>\<open>{success, error?}\<close>, and what awaiting the
  action's promise gives: the result, or an exception.
\<close>

record ActionResult =
  success :: bool
  error :: "string option"

datatype 'a awaited = Resolved 'a | Rejected

text \<open>
  The optional \<^verbatim>\<open>onSuccess\<close> prop is a function of the parent; of a call only whether
  it returns or throws reaches the handler, which calls it inside its \<^verbatim>\<open>try\<close> block.
\<close>

datatype callback = Returns | Throws

text \<open>
  What a handler does outside the component's state, in order. \<open>PageReload\<close> is the
  call \<^verbatim>\<open>window.location.reload()\<close>: the handler goes on after it (its
  \<^verbatim>\<open>finally\<close> block still runs), and the state is as the handler leaves it for as
  long as the component stays mounted.
\<close>

datatype 'a effect = ServerAction 'a | OnSuccessCalled | PageReload

text \<open>The \<^verbatim>\<open>useState\<close> cells both forms have.\<close>

record ('d, 'k) FormState =
  formData :: 'd
  errors :: "'k FormErrors"
  isSubmitting :: bool
  serverError :: string

section \<open>LoginForm\<close>

record LoginFormData =
  email :: string
  password :: string

datatype login_field = Email | Password

type_synonym LoginFormState = "(LoginFormData, login_field) FormState"

definition LoginForm_init :: LoginFormState where
  "LoginForm_init =
     \<lparr>formData = \<lparr>email = [], password = []\<rparr>, errors = [], isSubmitting = False,
      serverError = []\<rparr>"

definition LoginForm_handleChange :: "LoginFormState \<Rightarrow> login_field \<Rightarrow> string \<Rightarrow> LoginFormState" where
  "LoginForm_handleChange s name val =
     (let s1 = s\<lparr>formData :=
                 (case name of
                    Email \<Rightarrow> (formData s)\<lparr>email := val\<rparr>
                  | Password \<Rightarrow> (formData s)\<lparr>password := val\<rparr>)\<rparr>;
          s2 = (if truthy (lookup_error (errors s) name)
                then s1\<lparr>errors := AList.update name None (errors s)\<rparr> else s1)
      in if serverError s \<noteq> [] then s2\<lparr>serverError := []\<rparr> else s2)"

text \<open>
  \<^verbatim>\<open>handleSubmit\<close> up to its \<^verbatim>\<open>await\<close>: the new state, and the arguments of the call
  to \<^verbatim>\<open>authorizeUser\<close> when one is made. \<^verbatim>\<open>validateLoginForm\<close> is imported from a
  module outside the present sources and is a parameter.
\<close>

definition LoginForm_submit_begin ::
  "(LoginFormData \<Rightarrow> login_field FormErrors) \<Rightarrow> LoginFormState
     \<Rightarrow> LoginFormState \<times> (string \<times> string) option" where
  "LoginForm_submit_begin validate s =
     (let s1 = s\<lparr>serverError := []\<rparr>;
          validationErrors = validate (formData s)
      in if has_keys validationErrors then (s1\<lparr>errors := validationErrors\<rparr>, None)
         else (s1\<lparr>isSubmitting := True\<rparr>, Some (email (formData s), password (formData s))))"

text \<open>The rest of \<^verbatim>\<open>handleSubmit\<close>, run when the awaited promise settles.\<close>

definition LoginForm_submit_settle ::
  "callback option \<Rightarrow> LoginFormState \<Rightarrow> ActionResult awaited
     \<Rightarrow> LoginFormState \<times> (string \<times> string) effect list" where
  "LoginForm_submit_settle onSuccess s outcome =
     (case outcome of
        Rejected \<Rightarrow>
          (s\<lparr>serverError := ''An unexpected error occurred'', isSubmitting := False\<rparr>, [])
      | Resolved result \<Rightarrow>
          if success result then
            (case onSuccess of
               None \<Rightarrow> (s\<lparr>isSubmitting := False\<rparr>, [PageReload])
             | Some Returns \<Rightarrow> (s\<lparr>isSubmitting := False\<rparr>, [OnSuccessCalled, PageReload])
             | Some Throws \<Rightarrow>
                 (s\<lparr>serverError := ''An unexpected error occurred'', isSubmitting := False\<rparr>,
                  [OnSuccessCalled]))
          else
            (s\<lparr>serverError := or_else (error result) ''Authentication failed'',
               isSubmitting := False\<rparr>, []))"

text \<open>One whole submission: the handler with the outcome of its awaited call.\<close>

definition LoginForm_handleSubmit ::
  "(LoginFormData \<Rightarrow> login_field FormErrors) \<Rightarrow> callback option \<Rightarrow> LoginFormState
     \<Rightarrow> ActionResult awaited \<Rightarrow> LoginFormState \<times> (string \<times> string) effect list" where
  "LoginForm_handleSubmit validate onSuccess s outcome =
     (case LoginForm_submit_begin validate s of
        (s1, None) \<Rightarrow> (s1, [])
      | (s1, Some args) \<Rightarrow>
          (case LoginForm_submit_settle onSuccess s1 outcome of
             (s2, effs) \<Rightarrow> (s2, ServerAction args # effs)))"

section \<open>PostForm\<close>

record PostFormData =
  title :: string
  slug :: string
  content :: string
  categories :: "string list option"

datatype post_field = Title | Slug | Content | Categories

text \<open>
  The controls whose \<^verbatim>\<open>onChange\<close> is \<^verbatim>\<open>handleChange\<close>, and the \<^verbatim>\<open>name\<close> each
  carries.
\<close>

datatype post_input = TitleInput | SlugInput | ContentInput

fun name_of :: "post_input \<Rightarrow> post_field" where
  "name_of TitleInput = Title"
| "name_of SlugInput = Slug"
| "name_of ContentInput = Content"

record PostFormState = "(PostFormData, post_field) FormState" +
  successMessage :: string
  isSlugManuallyEdited :: bool

definition emptyPost :: PostFormData where
  "emptyPost = \<lparr>title = [], slug = [], content = [], categories = Some []\<rparr>"

definition PostForm_init :: PostFormState where
  "PostForm_init =
     \<lparr>formData = emptyPost, errors = [], isSubmitting = False, serverError = [],
      successMessage = [], isSlugManuallyEdited = False\<rparr>"

text \<open>
  \<^verbatim>\<open>generateSlug\<close> is imported from a module outside the present sources and is the
  parameter \<open>genSlug\<close>.
\<close>

definition PostForm_handleChange ::
  "(string \<Rightarrow> string) \<Rightarrow> PostFormState \<Rightarrow> post_input \<Rightarrow> string \<Rightarrow> PostFormState" where
  "PostForm_handleChange genSlug s target val =
     (let newData = (case target of
                       TitleInput \<Rightarrow> (formData s)\<lparr>title := val\<rparr>
                     | SlugInput \<Rightarrow> (formData s)\<lparr>slug := val\<rparr>
                     | ContentInput \<Rightarrow> (formData s)\<lparr>content := val\<rparr>);
          s1 = s\<lparr>formData :=
                 (if target = TitleInput \<and> \<not> isSlugManuallyEdited s
                  then newData\<lparr>slug := genSlug val\<rparr> else newData)\<rparr>;
          s2 = (if target = SlugInput then s1\<lparr>isSlugManuallyEdited := True\<rparr> else s1);
          s3 = (if truthy (lookup_error (errors s) (name_of target))
                then s2\<lparr>errors := AList.update (name_of target) None (errors s)\<rparr> else s2);
          s4 = (if serverError s \<noteq> [] then s3\<lparr>serverError := []\<rparr> else s3)
      in if successMessage s \<noteq> [] then s4\<lparr>successMessage := []\<rparr> else s4)"

text \<open>\<^verbatim>\<open>categories || []\<close>.\<close>

definition or_empty :: "string list option \<Rightarrow> string list" where
  "or_empty cats = (case cats of None \<Rightarrow> [] | Some cs \<Rightarrow> cs)"

text \<open>The new \<^verbatim>\<open>categories\<close> that the updater of \<^verbatim>\<open>handleCategoryToggle\<close> computes.\<close>

definition toggleCategory :: "string list option \<Rightarrow> string \<Rightarrow> string list" where
  "toggleCategory cats categoryId =
     (let currentCategories = or_empty cats;
          isSelected = (categoryId \<in> set currentCategories)
      in if isSelected then filter (\<lambda>id. id \<noteq> categoryId) currentCategories
         else currentCategories @ [categoryId])"

definition PostForm_handleCategoryToggle :: "PostFormState \<Rightarrow> string \<Rightarrow> PostFormState" where
  "PostForm_handleCategoryToggle s categoryId =
     s\<lparr>formData := (formData s)\<lparr>categories :=
         Some (toggleCategory (categories (formData s)) categoryId)\<rparr>\<rparr>"

text \<open>The \<^verbatim>\<open>onClick\<close> of the Clear button.\<close>

definition PostForm_clear :: "PostFormState \<Rightarrow> PostFormState" where
  "PostForm_clear s =
     s\<lparr>formData := emptyPost, errors := [], serverError := [], successMessage := []\<rparr>"

text \<open>
  \<^verbatim>\<open>handleSubmit\<close> up to its \<^verbatim>\<open>await\<close>; \<^verbatim>\<open>validatePostForm\<close> is imported from a
  module outside the present sources and is a parameter.
\<close>

definition PostForm_submit_begin ::
  "(PostFormData \<Rightarrow> post_field FormErrors) \<Rightarrow> PostFormState
     \<Rightarrow> PostFormState \<times> PostFormData option" where
  "PostForm_submit_begin validate s =
     (let s1 = s\<lparr>serverError := [], successMessage := []\<rparr>;
          validationErrors = validate (formData s)
      in if has_keys validationErrors then (s1\<lparr>errors := validationErrors\<rparr>, None)
         else (s1\<lparr>isSubmitting := True\<rparr>, Some (formData s)))"

definition PostForm_submit_settle ::
  "callback option \<Rightarrow> PostFormState \<Rightarrow> ActionResult awaited
     \<Rightarrow> PostFormState \<times> PostFormData effect list" where
  "PostForm_submit_settle onSuccess s outcome =
     (case outcome of
        Rejected \<Rightarrow>
          (s\<lparr>serverError := ''An unexpected error occurred'', isSubmitting := False\<rparr>, [])
      | Resolved result \<Rightarrow>
          if success result then
            (let s1 = s\<lparr>successMessage := ''Post created successfully!'',
                        formData := emptyPost, isSlugManuallyEdited := False\<rparr>
             in case onSuccess of
                  None \<Rightarrow> (s1\<lparr>isSubmitting := False\<rparr>, [PageReload])
                | Some Returns \<Rightarrow> (s1\<lparr>isSubmitting := False\<rparr>, [OnSuccessCalled, PageReload])
                | Some Throws \<Rightarrow>
                    (s1\<lparr>serverError := ''An unexpected error occurred'',
                       isSubmitting := False\<rparr>, [OnSuccessCalled]))
          else
            (s\<lparr>serverError := or_else (error result) ''Failed to create post'',
               isSubmitting := False\<rparr>, []))"

definition PostForm_handleSubmit ::
  "(PostFormData \<Rightarrow> post_field FormErrors) \<Rightarrow> callback option \<Rightarrow> PostFormState
     \<Rightarrow> ActionResult awaited \<Rightarrow> PostFormState \<times> PostFormData effect list" where
  "PostForm_handleSubmit validate onSuccess s outcome =
     (case PostForm_submit_begin validate s of
        (s1, None) \<Rightarrow> (s1, [])
      | (s1, Some args) \<Rightarrow>
          (case PostForm_submit_settle onSuccess s1 outcome of
             (s2, effs) \<Rightarrow> (s2, ServerAction args # effs)))"

section \<open>The forms as event-driven components\<close>

text \<open>
  A mounted form: the component's state and the server calls that were issued and have
  not settled yet (their arguments, oldest first).
\<close>

record ('s, 'a) mounted =
  component :: 's
  inFlight :: "'a list"

text \<open>
  Every control of both forms (inputs, textarea, checkboxes, the submit and the Clear
  button) is rendered with \<^verbatim>\<open>disabled={isSubmitting}\<close>.
\<close>

definition controls_disabled :: "('d, 'k, 'z) FormState_scheme \<Rightarrow> bool" where
  "controls_disabled s = isSubmitting s"

datatype post_event =
    PostChange post_input string
  | PostToggle string
  | PostClear
  | PostSubmit
  | PostSettle "ActionResult awaited"

text \<open>
  Modelled from the spec: the atoms \<^verbatim>\<open>Input\<close>, \<^verbatim>\<open>Textarea\<close>, \<^verbatim>\<open>Checkbox\<close> and
  \<^verbatim>\<open>Button\<close> are imported from outside the present sources; a control rendered
  disabled delivers no event to its handler (re-entrant submission is prevented by a
  boolean guard), so such an event leaves the form as it is. \<open>PostSettle\<close> is the
  awaited promise of the oldest call in flight settling; the handlers themselves are the
  ones above.
\<close>

definition PostForm_step ::
  "(string \<Rightarrow> string) \<Rightarrow> (PostFormData \<Rightarrow> post_field FormErrors) \<Rightarrow> callback option
     \<Rightarrow> (PostFormState, PostFormData) mounted \<Rightarrow> post_event
     \<Rightarrow> (PostFormState, PostFormData) mounted" where
  "PostForm_step genSlug validate onSuccess u ev =
     (case ev of
        PostSettle outcome \<Rightarrow>
          (case inFlight u of
             [] \<Rightarrow> u
           | call # rest \<Rightarrow>
               u\<lparr>component := fst (PostForm_submit_settle onSuccess (component u) outcome),
                 inFlight := rest\<rparr>)
      | PostChange target val \<Rightarrow>
          if controls_disabled (component u) then u
          else u\<lparr>component := PostForm_handleChange genSlug (component u) target val\<rparr>
      | PostToggle categoryId \<Rightarrow>
          if controls_disabled (component u) then u
          else u\<lparr>component := PostForm_handleCategoryToggle (component u) categoryId\<rparr>
      | PostClear \<Rightarrow>
          if controls_disabled (component u) then u
          else u\<lparr>component := PostForm_clear (component u)\<rparr>
      | PostSubmit \<Rightarrow>
          if controls_disabled (component u) then u
          else (case PostForm_submit_begin validate (component u) of
                  (s1, None) \<Rightarrow> u\<lparr>component := s1\<rparr>
                | (s1, Some args) \<Rightarrow> u\<lparr>component := s1, inFlight := inFlight u @ [args]\<rparr>))"

definition PostForm_mount :: "(PostFormState, PostFormData) mounted" where
  "PostForm_mount = \<lparr>component = PostForm_init, inFlight = []\<rparr>"

definition PostForm_run ::
  "(string \<Rightarrow> string) \<Rightarrow> (PostFormData \<Rightarrow> post_field FormErrors) \<Rightarrow> callback option
     \<Rightarrow> (PostFormState, PostFormData) mounted \<Rightarrow> post_event list
     \<Rightarrow> (PostFormState, PostFormData) mounted" where
  "PostForm_run genSlug validate onSuccess = foldl (PostForm_step genSlug validate onSuccess)"

text \<open>At most one of the error panel and the success panel is rendered.\<close>

definition banners_exclusive :: "PostFormState \<Rightarrow> bool" where
  "banners_exclusive s = (serverError s = [] \<or> successMessage s = [])"

text \<open>A change event on the slug field.\<close>

definition slug_edit :: "post_event \<Rightarrow> bool" where
  "slug_edit ev = (case ev of PostChange SlugInput val \<Rightarrow> True | _ \<Rightarrow> False)"

text \<open>The one event after which a set \<^verbatim>\<open>isSlugManuallyEdited\<close> can be unset.\<close>

definition successful_settle :: "post_event \<Rightarrow> bool" where
  "successful_settle ev =
     (case ev of PostSettle (Resolved result) \<Rightarrow> success result | _ \<Rightarrow> False)"

datatype login_event =
    LoginChange login_field string
  | LoginSubmit
  | LoginSettle "ActionResult awaited"

text \<open>
  Modelled from the spec: as for \<open>PostForm_step\<close>, the atoms \<^verbatim>\<open>Input\<close> and
  \<^verbatim>\<open>Button\<close> are outside the present sources, and a disabled control delivers no
  event.
\<close>

definition LoginForm_step ::
  "(LoginFormData \<Rightarrow> login_field FormErrors) \<Rightarrow> callback option
     \<Rightarrow> (LoginFormState, string \<times> string) mounted \<Rightarrow> login_event
     \<Rightarrow> (LoginFormState, string \<times> string) mounted" where
  "LoginForm_step validate onSuccess u ev =
     (case ev of
        LoginSettle outcome \<Rightarrow>
          (case inFlight u of
             [] \<Rightarrow> u
           | call # rest \<Rightarrow>
               u\<lparr>component := fst (LoginForm_submit_settle onSuccess (component u) outcome),
                 inFlight := rest\<rparr>)
      | LoginChange name val \<Rightarrow>
          if controls_disabled (component u) then u
          else u\<lparr>component := LoginForm_handleChange (component u) name val\<rparr>
      | LoginSubmit \<Rightarrow>
          if controls_disabled (component u) then u
          else (case LoginForm_submit_begin validate (component u) of
                  (s1, None) \<Rightarrow> u\<lparr>component := s1\<rparr>
                | (s1, Some args) \<Rightarrow> u\<lparr>component := s1, inFlight := inFlight u @ [args]\<rparr>))"

definition LoginForm_mount :: "(LoginFormState, string \<times> string) mounted" where
  "LoginForm_mount = \<lparr>component = LoginForm_init, inFlight = []\<rparr>"

definition LoginForm_run ::
  "(LoginFormData \<Rightarrow> login_field FormErrors) \<Rightarrow> callback option
     \<Rightarrow> (LoginFormState, string \<times> string) mounted \<Rightarrow> login_event list
     \<Rightarrow> (LoginFormState, string \<times> string) mounted" where
  "LoginForm_run validate onSuccess = foldl (LoginForm_step validate onSuccess)"

section \<open>The imported helpers, from the spec\<close>

text \<open>
  Modelled from the spec: \<^verbatim>\<open>generateSlug\<close> of \<^verbatim>\<open>@/utils/string\<close> is not in the
  present sources. The slug is derived deterministically from the title: lowercase,
  whitespace/punctuation to hyphens. Letters are lowered, digits and bytes outside ASCII
  are kept, and every other character becomes a hyphen.
\<close>

definition lower_char :: "char \<Rightarrow> char" where
  "lower_char c =
     (let n = (of_char c :: nat)
      in if 65 \<le> n \<and> n \<le> 90
         then Char (digit0 c) (digit1 c) (digit2 c) (digit3 c) (digit4 c) True (digit6 c)
                (digit7 c)
         else c)"

definition hyphenate :: "char \<Rightarrow> char" where
  "hyphenate c =
     (let n = (of_char c :: nat)
      in if (48 \<le> n \<and> n \<le> 57) \<or> (97 \<le> n \<and> n \<le> 122) \<or> 128 \<le> n then c
         else CHR ''-'')"

definition generateSlug :: "string \<Rightarrow> string" where
  "generateSlug t = map (\<lambda>c. hyphenate (lower_char c)) t"

text \<open>
  Modelled from the spec: \<^verbatim>\<open>validatePostForm\<close> and \<^verbatim>\<open>validateLoginForm\<close> of
  \<^verbatim>\<open>@/utils/validation\<close> are not in the present sources. Validation is a pure function
  from form data to an error mapping, the empty mapping meaning valid; an empty title or
  content is reported, and for the login form likewise an empty email or password. The
  spec gives no message texts: the ones here only stand for a non-empty message.
\<close>

definition validatePostForm :: "PostFormData \<Rightarrow> post_field FormErrors" where
  "validatePostForm d =
     (if title d = [] then [(Title, Some ''Title is required'')] else []) @
     (if content d = [] then [(Content, Some ''Content is required'')] else [])"

definition validateLoginForm :: "LoginFormData \<Rightarrow> login_field FormErrors" where
  "validateLoginForm d =
     (if email d = [] then [(Email, Some ''Email is required'')] else []) @
     (if password d = [] then [(Password, Some ''Password is required'')] else [])"

section \<open>Inputs used in the examples\<close>

definition ok_result :: ActionResult where
  "ok_result = \<lparr>success = True, error = None\<rparr>"

definition failed_result :: ActionResult where
  "failed_result = \<lparr>success = False, error = Some ''Slug already exists''\<rparr>"

definition filled_post :: PostFormState where
  "filled_post =
     PostForm_init\<lparr>formData :=
       \<lparr>title = ''First post'', slug = ''my-slug'', content = ''Some text'',
        categories = Some [''news'']\<rparr>, isSlugManuallyEdited := True\<rparr>"

definition filled_login :: LoginFormState where
  "filled_login =
     LoginForm_init\<lparr>formData := \<lparr>email = ''test@test.com'', password = ''secret''\<rparr>\<rparr>"

text \<open>
  A user types a slug, a title and a content, submits, and the server reports success.
\<close>

definition edit_slug_then_succeed :: "post_event list" where
  "edit_slug_then_succeed =
     [PostChange SlugInput ''my-slug'', PostChange TitleInput ''First post'',
      PostChange ContentInput ''Some text'', PostSubmit, PostSettle (Resolved ok_result)]"

section \<open>Properties\<close>

subsection \<open>Category toggling\<close>

lemma toggle_absent: "c \<notin> set (or_empty cats) \<Longrightarrow> toggleCategory cats c = or_empty cats @ [c]"
  by (simp add: toggleCategory_def)

lemma toggle_present:
  "c \<in> set (or_empty cats) \<Longrightarrow> toggleCategory cats c = filter (\<lambda>id. id \<noteq> c) (or_empty cats)"
  by (simp add: toggleCategory_def)

lemma or_empty_Some: "or_empty (Some xs) = xs"
  by (simp add: or_empty_def)

lemma toggle_twice_set: "set (toggleCategory (Some (toggleCategory cats c)) c) = set (or_empty cats)"
proof (cases "c \<in> set (or_empty cats)")
  case True
  then have "toggleCategory cats c = filter (\<lambda>id. id \<noteq> c) (or_empty cats)"
    by (rule toggle_present)
  then show ?thesis
    using True by (auto simp add: toggle_absent or_empty_Some)
next
  case False
  then have "toggleCategory cats c = or_empty cats @ [c]"
    by (rule toggle_absent)
  then show ?thesis
    using False by (auto simp add: toggle_present or_empty_Some)
qed

text \<open>
  Claim C9. Toggling a category appends the id to the selected list when it is absent and
  removes every occurrence of it when it is present; toggling the same id twice leaves
  the set of selected categories as it was.
\<close>

theorem C9_toggle_category:
  "(c \<notin> set (or_empty (categories (formData s))) \<longrightarrow>
      categories (formData (PostForm_handleCategoryToggle s c)) =
        Some (or_empty (categories (formData s)) @ [c])) \<and>
   (c \<in> set (or_empty (categories (formData s))) \<longrightarrow>
      categories (formData (PostForm_handleCategoryToggle s c)) =
        Some (filter (\<lambda>id. id \<noteq> c) (or_empty (categories (formData s)))) \<and>
      c \<notin> set (or_empty (categories (formData (PostForm_handleCategoryToggle s c))))) \<and>
   set (or_empty (categories (formData
          (PostForm_handleCategoryToggle (PostForm_handleCategoryToggle s c) c)))) =
     set (or_empty (categories (formData s)))"
proof (intro conjI impI)
  assume "c \<notin> set (or_empty (categories (formData s)))"
  then show "categories (formData (PostForm_handleCategoryToggle s c)) =
      Some (or_empty (categories (formData s)) @ [c])"
    by (simp add: PostForm_handleCategoryToggle_def toggle_absent)
next
  assume "c \<in> set (or_empty (categories (formData s)))"
  then show "categories (formData (PostForm_handleCategoryToggle s c)) =
      Some (filter (\<lambda>id. id \<noteq> c) (or_empty (categories (formData s))))"
    by (simp add: PostForm_handleCategoryToggle_def toggle_present)
next
  assume "c \<in> set (or_empty (categories (formData s)))"
  then show "c \<notin> set (or_empty (categories (formData (PostForm_handleCategoryToggle s c))))"
    by (simp add: PostForm_handleCategoryToggle_def toggle_present or_empty_Some)
next
  show "set (or_empty (categories (formData
          (PostForm_handleCategoryToggle (PostForm_handleCategoryToggle s c) c)))) =
     set (or_empty (categories (formData s)))"
    using toggle_twice_set [of "categories (formData s)" c]
    by (simp add: PostForm_handleCategoryToggle_def or_empty_Some)
qed

theorem C9_toggle_category_witness:
  "categories (formData (PostForm_handleCategoryToggle filled_post ''sport'')) =
     Some [''news'', ''sport''] \<and>
   categories (formData (PostForm_handleCategoryToggle
     (filled_post\<lparr>formData := (formData filled_post)\<lparr>categories := Some [''a'', ''b'', ''a'']\<rparr>\<rparr>) ''a'')) = Some [''b'']"
proof -
  let ?s = "filled_post\<lparr>formData := (formData filled_post)\<lparr>categories := Some [''a'', ''b'', ''a'']\<rparr>\<rparr>"
  have a: "''sport'' \<notin> set (or_empty (categories (formData filled_post)))"
    by (simp add: filled_post_def or_empty_def)
  have b: "''a'' \<in> set (or_empty (categories (formData ?s)))"
    by (simp add: or_empty_def)
  from a C9_toggle_category [of "''sport''" filled_post]
  have "categories (formData (PostForm_handleCategoryToggle filled_post ''sport'')) =
     Some (or_empty (categories (formData filled_post)) @ [''sport''])"
    by blast
  moreover from b C9_toggle_category [of "''a''" ?s]
  have "categories (formData (PostForm_handleCategoryToggle ?s ''a'')) =
     Some (filter (\<lambda>id. id \<noteq> ''a'') (or_empty (categories (formData ?s))))"
    by blast
  ultimately show ?thesis
    by (simp add: filled_post_def or_empty_def)
qed

subsection \<open>Field errors\<close>

lemma lookup_update_same: "lookup_error (AList.update k None e) k = None"
  by (simp add: lookup_error_def update_conv')

lemma map_of_update_other: "k' \<noteq> k \<Longrightarrow> map_of (AList.update k v e) k' = map_of e k'"
  by (simp add: update_conv')

lemma post_change_errors:
  "errors (PostForm_handleChange g s target v) =
     (if truthy (lookup_error (errors s) (name_of target))
      then AList.update (name_of target) None (errors s) else errors s)"
  by (simp add: PostForm_handleChange_def Let_def)

lemma login_change_errors:
  "errors (LoginForm_handleChange s name v) =
     (if truthy (lookup_error (errors s) name)
      then AList.update name None (errors s) else errors s)"
  by (simp add: LoginForm_handleChange_def Let_def)

text \<open>
  Claim C6. A change event on a field whose error entry is set clears that entry (the key
  then holds \<^verbatim>\<open>undefined\<close>) and leaves the entry of every other field as it was, in
  both forms.
\<close>

theorem C6_change_clears_own_error:
  "(truthy (lookup_error (errors s) (name_of target)) \<longrightarrow>
      errors (PostForm_handleChange g s target v) =
        AList.update (name_of target) None (errors s) \<and>
      lookup_error (errors (PostForm_handleChange g s target v)) (name_of target) = None \<and>
      (\<forall>k. k \<noteq> name_of target \<longrightarrow>
         map_of (errors (PostForm_handleChange g s target v)) k = map_of (errors s) k)) \<and>
   (truthy (lookup_error (errors l) name) \<longrightarrow>
      errors (LoginForm_handleChange l name w) = AList.update name None (errors l) \<and>
      lookup_error (errors (LoginForm_handleChange l name w)) name = None \<and>
      (\<forall>k. k \<noteq> name \<longrightarrow>
         map_of (errors (LoginForm_handleChange l name w)) k = map_of (errors l) k))"
  by (simp add: post_change_errors login_change_errors lookup_update_same map_of_update_other)

theorem C6_change_clears_own_error_witness:
  "errors (PostForm_handleChange generateSlug
       (PostForm_init\<lparr>errors := [(Title, Some ''Title is required''),
                                  (Content, Some ''Content is required'')]\<rparr>) TitleInput ''H'') =
     [(Title, None), (Content, Some ''Content is required'')] \<and>
   errors (LoginForm_handleChange
       (LoginForm_init\<lparr>errors := [(Email, Some ''Email is required''),
                                   (Password, Some ''Password is required'')]\<rparr>) Password ''p'') =
     [(Email, Some ''Email is required''), (Password, None)]"
proof -
  let ?s = "PostForm_init\<lparr>errors := [(Title, Some ''Title is required''),
                                  (Content, Some ''Content is required'')]\<rparr>"
  let ?l = "LoginForm_init\<lparr>errors := [(Email, Some ''Email is required''),
                                   (Password, Some ''Password is required'')]\<rparr>"
  have a: "truthy (lookup_error (errors ?s) (name_of TitleInput))"
    by (simp add: truthy_def lookup_error_def)
  have b: "truthy (lookup_error (errors ?l) Password)"
    by (simp add: truthy_def lookup_error_def)
  from a b C6_change_clears_own_error [of ?s TitleInput generateSlug "''H''" ?l Password "''p''"]
  show ?thesis by simp
qed

subsection \<open>Validation before the server action\<close>

text \<open>
  Claim C3. When the validation function returns an object with at least one key,
  submitting stores that object as the field errors and returns with no effect outside
  the component: the server action is not called. The call is issued exactly when
  validation, which runs first, returned no key. Both forms.
\<close>

theorem C3_validation_blocks_submission:
  "(has_keys (validate (formData s)) \<longrightarrow>
      PostForm_submit_begin validate s =
        (s\<lparr>serverError := [], successMessage := [], errors := validate (formData s)\<rparr>, None) \<and>
      PostForm_handleSubmit validate onSuccess s outcome =
        (s\<lparr>serverError := [], successMessage := [], errors := validate (formData s)\<rparr>, [])) \<and>
   (has_keys (validateL (formData l)) \<longrightarrow>
      LoginForm_submit_begin validateL l =
        (l\<lparr>serverError := [], errors := validateL (formData l)\<rparr>, None) \<and>
      LoginForm_handleSubmit validateL onSuccessL l outcomeL =
        (l\<lparr>serverError := [], errors := validateL (formData l)\<rparr>, [])) \<and>
   (snd (PostForm_submit_begin validate s) \<noteq> None) = (\<not> has_keys (validate (formData s))) \<and>
   (snd (LoginForm_submit_begin validateL l) \<noteq> None) = (\<not> has_keys (validateL (formData l)))"
  by (simp add: PostForm_submit_begin_def PostForm_handleSubmit_def
      LoginForm_submit_begin_def LoginForm_handleSubmit_def Let_def)

theorem C3_validation_blocks_submission_witness:
  "PostForm_handleSubmit validatePostForm (Some Returns) PostForm_init (Resolved ok_result) =
     (PostForm_init\<lparr>errors := [(Title, Some ''Title is required''),
                                 (Content, Some ''Content is required'')]\<rparr>, []) \<and>
   LoginForm_handleSubmit validateLoginForm (Some Returns) LoginForm_init (Resolved ok_result) =
     (LoginForm_init\<lparr>errors := [(Email, Some ''Email is required''),
                                  (Password, Some ''Password is required'')]\<rparr>, [])"
proof -
  have a: "has_keys (validatePostForm (formData PostForm_init))"
    by (simp add: has_keys_def validatePostForm_def PostForm_init_def emptyPost_def)
  have b: "has_keys (validateLoginForm (formData LoginForm_init))"
    by (simp add: has_keys_def validateLoginForm_def LoginForm_init_def)
  from a b C3_validation_blocks_submission [of validatePostForm PostForm_init "Some Returns"
      "Resolved ok_result" validateLoginForm LoginForm_init "Some Returns" "Resolved ok_result"]
  show ?thesis
    by (simp add: validatePostForm_def validateLoginForm_def PostForm_init_def emptyPost_def
        LoginForm_init_def)
qed

subsection \<open>How a submission ends\<close>

lemma post_submit_valid:
  "\<not> has_keys (validate (formData s)) \<Longrightarrow>
     PostForm_handleSubmit validate onSuccess s outcome =
       (fst (PostForm_submit_settle onSuccess
               (s\<lparr>serverError := [], successMessage := [], isSubmitting := True\<rparr>) outcome),
        ServerAction (formData s) #
        snd (PostForm_submit_settle onSuccess
               (s\<lparr>serverError := [], successMessage := [], isSubmitting := True\<rparr>) outcome))"
  by (simp add: PostForm_handleSubmit_def PostForm_submit_begin_def Let_def split: prod.splits)

lemma login_submit_valid:
  "\<not> has_keys (validate (formData l)) \<Longrightarrow>
     LoginForm_handleSubmit validate onSuccess l outcome =
       (fst (LoginForm_submit_settle onSuccess (l\<lparr>serverError := [], isSubmitting := True\<rparr>)
               outcome),
        ServerAction (email (formData l), password (formData l)) #
        snd (LoginForm_submit_settle onSuccess (l\<lparr>serverError := [], isSubmitting := True\<rparr>)
               outcome))"
  by (simp add: LoginForm_handleSubmit_def LoginForm_submit_begin_def Let_def split: prod.splits)

lemma post_submit_invalid:
  "has_keys (validate (formData s)) \<Longrightarrow>
     PostForm_handleSubmit validate onSuccess s outcome =
       (s\<lparr>serverError := [], successMessage := [], errors := validate (formData s)\<rparr>, [])"
  by (simp add: PostForm_handleSubmit_def PostForm_submit_begin_def Let_def)

lemma login_submit_invalid:
  "has_keys (validate (formData l)) \<Longrightarrow>
     LoginForm_handleSubmit validate onSuccess l outcome =
       (l\<lparr>serverError := [], errors := validate (formData l)\<rparr>, [])"
  by (simp add: LoginForm_handleSubmit_def LoginForm_submit_begin_def Let_def)

lemma post_settle_rejected:
  "PostForm_submit_settle onSuccess s Rejected =
     (s\<lparr>serverError := ''An unexpected error occurred'', isSubmitting := False\<rparr>, [])"
  by (simp add: PostForm_submit_settle_def)

lemma login_settle_rejected:
  "LoginForm_submit_settle onSuccess l Rejected =
     (l\<lparr>serverError := ''An unexpected error occurred'', isSubmitting := False\<rparr>, [])"
  by (simp add: LoginForm_submit_settle_def)

lemma post_settle_failure:
  "\<not> success r \<Longrightarrow>
     PostForm_submit_settle onSuccess s (Resolved r) =
       (s\<lparr>serverError := or_else (error r) ''Failed to create post'', isSubmitting := False\<rparr>,
        [])"
  by (simp add: PostForm_submit_settle_def)

lemma login_settle_failure:
  "\<not> success r \<Longrightarrow>
     LoginForm_submit_settle onSuccess l (Resolved r) =
       (l\<lparr>serverError := or_else (error r) ''Authentication failed'', isSubmitting := False\<rparr>,
        [])"
  by (simp add: LoginForm_submit_settle_def)

lemma post_settle_success:
  "success r \<Longrightarrow>
     PostForm_submit_settle onSuccess s (Resolved r) =
       (case onSuccess of
          None \<Rightarrow>
            (s\<lparr>successMessage := ''Post created successfully!'', formData := emptyPost,
               isSlugManuallyEdited := False, isSubmitting := False\<rparr>, [PageReload])
        | Some Returns \<Rightarrow>
            (s\<lparr>successMessage := ''Post created successfully!'', formData := emptyPost,
               isSlugManuallyEdited := False, isSubmitting := False\<rparr>,
             [OnSuccessCalled, PageReload])
        | Some Throws \<Rightarrow>
            (s\<lparr>successMessage := ''Post created successfully!'', formData := emptyPost,
               isSlugManuallyEdited := False,
               serverError := ''An unexpected error occurred'', isSubmitting := False\<rparr>,
             [OnSuccessCalled]))"
  by (simp add: PostForm_submit_settle_def Let_def split: option.splits callback.splits)

lemma login_settle_success:
  "success r \<Longrightarrow>
     LoginForm_submit_settle onSuccess l (Resolved r) =
       (case onSuccess of
          None \<Rightarrow> (l\<lparr>isSubmitting := False\<rparr>, [PageReload])
        | Some Returns \<Rightarrow> (l\<lparr>isSubmitting := False\<rparr>, [OnSuccessCalled, PageReload])
        | Some Throws \<Rightarrow>
            (l\<lparr>serverError := ''An unexpected error occurred'', isSubmitting := False\<rparr>,
             [OnSuccessCalled]))"
  by (simp add: LoginForm_submit_settle_def)

text \<open>
  Claim C8. When the awaited server action throws, the rest of the handler stores the
  fixed message \<^verbatim>\<open>An unexpected error occurred\<close> in \<open>serverError\<close>, clears
  \<open>isSubmitting\<close> and changes nothing else of the state it resumes in; the whole
  submission made one call of the server action (no second one), called no
  \<^verbatim>\<open>onSuccess\<close> and asked for no reload. Both forms.
\<close>

theorem C8_exception_becomes_generic_message:
  "PostForm_submit_settle onSuccess s Rejected =
     (s\<lparr>serverError := ''An unexpected error occurred'', isSubmitting := False\<rparr>, []) \<and>
   LoginForm_submit_settle onSuccessL l Rejected =
     (l\<lparr>serverError := ''An unexpected error occurred'', isSubmitting := False\<rparr>, []) \<and>
   (\<not> has_keys (validate (formData s)) \<longrightarrow>
      PostForm_handleSubmit validate onSuccess s Rejected =
        (s\<lparr>serverError := ''An unexpected error occurred'', successMessage := [],
           isSubmitting := False\<rparr>, [ServerAction (formData s)])) \<and>
   (\<not> has_keys (validateL (formData l)) \<longrightarrow>
      LoginForm_handleSubmit validateL onSuccessL l Rejected =
        (l\<lparr>serverError := ''An unexpected error occurred'', isSubmitting := False\<rparr>,
         [ServerAction (email (formData l), password (formData l))]))"
  by (simp add: post_settle_rejected login_settle_rejected post_submit_valid login_submit_valid)

theorem C8_exception_becomes_generic_message_witness:
  "PostForm_handleSubmit validatePostForm (Some Returns) filled_post Rejected =
     (filled_post\<lparr>serverError := ''An unexpected error occurred''\<rparr>,
      [ServerAction (formData filled_post)]) \<and>
   LoginForm_handleSubmit validateLoginForm (Some Returns) filled_login Rejected =
     (filled_login\<lparr>serverError := ''An unexpected error occurred''\<rparr>,
      [ServerAction (''test@test.com'', ''secret'')])"
proof -
  have a: "\<not> has_keys (validatePostForm (formData filled_post))"
    by (simp add: has_keys_def validatePostForm_def filled_post_def)
  have b: "\<not> has_keys (validateLoginForm (formData filled_login))"
    by (simp add: has_keys_def validateLoginForm_def filled_login_def)
  from a b C8_exception_becomes_generic_message [of "Some Returns" filled_post "Some Returns"
      filled_login validatePostForm validateLoginForm]
  show ?thesis
    by (simp add: filled_post_def filled_login_def PostForm_init_def LoginForm_init_def)
qed

text \<open>
  Claim C4. A submission whose server action answers \<^verbatim>\<open>success: false\<close> or throws
  leaves \<open>formData\<close> as it was when the submission started, in both forms. The rest of
  the handler changes only \<open>serverError\<close> and \<open>isSubmitting\<close> of the state it
  resumes in; over the whole submission the state differs from the starting one in
  \<open>serverError\<close>, in \<open>isSubmitting\<close> and in the success banner, which the start of
  every submission resets to the empty string.
\<close>

theorem C4_failed_submission_keeps_form_data:
  "formData (fst (PostForm_handleSubmit validate onSuccess s Rejected)) = formData s \<and>
   formData (fst (LoginForm_handleSubmit validateL onSuccessL l Rejected)) = formData l \<and>
   (\<not> success r \<longrightarrow>
      formData (fst (PostForm_handleSubmit validate onSuccess s (Resolved r))) = formData s \<and>
      formData (fst (LoginForm_handleSubmit validateL onSuccessL l (Resolved r))) = formData l \<and>
      PostForm_submit_settle onSuccess s (Resolved r) =
        (s\<lparr>serverError := or_else (error r) ''Failed to create post'',
           isSubmitting := False\<rparr>, []) \<and>
      LoginForm_submit_settle onSuccessL l (Resolved r) =
        (l\<lparr>serverError := or_else (error r) ''Authentication failed'',
           isSubmitting := False\<rparr>, []) \<and>
      (\<not> has_keys (validate (formData s)) \<longrightarrow>
         fst (PostForm_handleSubmit validate onSuccess s (Resolved r)) =
           s\<lparr>serverError := or_else (error r) ''Failed to create post'',
             successMessage := [], isSubmitting := False\<rparr>) \<and>
      (\<not> has_keys (validateL (formData l)) \<longrightarrow>
         fst (LoginForm_handleSubmit validateL onSuccessL l (Resolved r)) =
           l\<lparr>serverError := or_else (error r) ''Authentication failed'',
             isSubmitting := False\<rparr>))"
proof -
  have p: "formData (fst (PostForm_handleSubmit validate onSuccess s Rejected)) = formData s"
    by (cases "has_keys (validate (formData s))")
      (simp_all add: post_submit_valid post_submit_invalid post_settle_rejected)
  have q: "formData (fst (LoginForm_handleSubmit validateL onSuccessL l Rejected)) = formData l"
    by (cases "has_keys (validateL (formData l))")
      (simp_all add: login_submit_valid login_submit_invalid login_settle_rejected)
  have p': "formData (fst (PostForm_handleSubmit validate onSuccess s (Resolved r))) = formData s"
    if "\<not> success r"
    using that
    by (cases "has_keys (validate (formData s))")
      (simp_all add: post_submit_valid post_submit_invalid post_settle_failure)
  have q': "formData (fst (LoginForm_handleSubmit validateL onSuccessL l (Resolved r))) =
      formData l" if "\<not> success r"
    using that
    by (cases "has_keys (validateL (formData l))")
      (simp_all add: login_submit_valid login_submit_invalid login_settle_failure)
  show ?thesis
    using p q p' q'
    by (simp add: post_settle_failure login_settle_failure post_submit_valid login_submit_valid)
qed

theorem C4_failed_submission_keeps_form_data_witness:
  "fst (PostForm_handleSubmit validatePostForm (Some Returns) filled_post
          (Resolved failed_result)) =
     filled_post\<lparr>serverError := ''Slug already exists''\<rparr> \<and>
   fst (LoginForm_handleSubmit validateLoginForm (Some Returns) filled_login
          (Resolved \<lparr>success = False, error = None\<rparr>)) =
     filled_login\<lparr>serverError := ''Authentication failed''\<rparr>"
proof -
  have a: "\<not> has_keys (validatePostForm (formData filled_post))"
    by (simp add: has_keys_def validatePostForm_def filled_post_def)
  have b: "\<not> has_keys (validateLoginForm (formData filled_login))"
    by (simp add: has_keys_def validateLoginForm_def filled_login_def)
  have c: "\<not> success failed_result"
    by (simp add: failed_result_def)
  have d: "\<not> success \<lparr>success = False, error = None\<rparr>"
    by simp
  from a c C4_failed_submission_keeps_form_data [of validatePostForm "Some Returns" filled_post
      validateLoginForm "Some Returns" filled_login failed_result]
  have "fst (PostForm_handleSubmit validatePostForm (Some Returns) filled_post
          (Resolved failed_result)) =
     filled_post\<lparr>serverError := or_else (error failed_result) ''Failed to create post'',
             successMessage := [], isSubmitting := False\<rparr>"
    by blast
  moreover from b d C4_failed_submission_keeps_form_data [of validatePostForm "Some Returns"
      filled_post validateLoginForm "Some Returns" filled_login
      "\<lparr>success = False, error = None\<rparr>"]
  have "fst (LoginForm_handleSubmit validateLoginForm (Some Returns) filled_login
          (Resolved \<lparr>success = False, error = None\<rparr>)) =
     filled_login\<lparr>serverError := or_else (error \<lparr>success = False, error = None\<rparr>)
        ''Authentication failed'', isSubmitting := False\<rparr>"
    by blast
  ultimately show ?thesis
    by (simp add: filled_post_def filled_login_def PostForm_init_def LoginForm_init_def
        failed_result_def or_else_def)
qed

text \<open>
  Claim C5, as amended. When the server action answers \<^verbatim>\<open>success: true\<close>, PostForm
  resets \<open>formData\<close> to the empty defaults, while LoginForm leaves its \<open>formData\<close>
  as entered; in both forms the parent's \<^verbatim>\<open>onSuccess\<close> callback is called when the
  parent gave one. The theorem also lists the effects of the whole submission: the server
  call, the call of the callback when there is one, and the request to reload the page
  when there is no callback or the callback returned (a callback that throws is followed
  by no reload).
\<close>

theorem C5_success_resets_post_form_only:
  "success r \<longrightarrow>
     formData (fst (PostForm_submit_settle onSuccess s (Resolved r))) = emptyPost \<and>
     formData (fst (LoginForm_submit_settle onSuccessL l (Resolved r))) = formData l \<and>
     (\<not> has_keys (validate (formData s)) \<longrightarrow>
        formData (fst (PostForm_handleSubmit validate onSuccess s (Resolved r))) = emptyPost \<and>
        (onSuccess \<noteq> None \<longrightarrow>
           OnSuccessCalled \<in> set (snd (PostForm_handleSubmit validate onSuccess s
                                        (Resolved r)))) \<and>
        snd (PostForm_handleSubmit validate onSuccess s (Resolved r)) =
          ServerAction (formData s) #
          (case onSuccess of
             None \<Rightarrow> [PageReload]
           | Some Returns \<Rightarrow> [OnSuccessCalled, PageReload]
           | Some Throws \<Rightarrow> [OnSuccessCalled])) \<and>
     (\<not> has_keys (validateL (formData l)) \<longrightarrow>
        formData (fst (LoginForm_handleSubmit validateL onSuccessL l (Resolved r))) =
          formData l \<and>
        (onSuccessL \<noteq> None \<longrightarrow>
           OnSuccessCalled \<in> set (snd (LoginForm_handleSubmit validateL onSuccessL l
                                        (Resolved r)))) \<and>
        snd (LoginForm_handleSubmit validateL onSuccessL l (Resolved r)) =
          ServerAction (email (formData l), password (formData l)) #
          (case onSuccessL of
             None \<Rightarrow> [PageReload]
           | Some Returns \<Rightarrow> [OnSuccessCalled, PageReload]
           | Some Throws \<Rightarrow> [OnSuccessCalled]))"
  by (simp add: post_settle_success login_settle_success post_submit_valid login_submit_valid
      split: option.splits callback.splits)

theorem C5_success_resets_post_form_only_witness:
  "formData (fst (PostForm_handleSubmit validatePostForm (Some Returns) filled_post
                    (Resolved ok_result))) = emptyPost \<and>
   snd (PostForm_handleSubmit validatePostForm (Some Returns) filled_post (Resolved ok_result)) =
     [ServerAction (formData filled_post), OnSuccessCalled, PageReload] \<and>
   formData (fst (LoginForm_handleSubmit validateLoginForm (Some Returns) filled_login
                    (Resolved ok_result))) =
     \<lparr>email = ''test@test.com'', password = ''secret''\<rparr> \<and>
   snd (LoginForm_handleSubmit validateLoginForm (Some Returns) filled_login
          (Resolved ok_result)) =
     [ServerAction (''test@test.com'', ''secret''), OnSuccessCalled, PageReload]"
proof -
  have a: "\<not> has_keys (validatePostForm (formData filled_post))"
    by (simp add: has_keys_def validatePostForm_def filled_post_def)
  have b: "\<not> has_keys (validateLoginForm (formData filled_login))"
    by (simp add: has_keys_def validateLoginForm_def filled_login_def)
  have c: "success ok_result"
    by (simp add: ok_result_def)
  from a b c C5_success_resets_post_form_only [of ok_result "Some Returns" filled_post
      "Some Returns" filled_login validatePostForm validateLoginForm]
  show ?thesis
    by (simp add: filled_login_def)
qed

text \<open>
  Claim C5 as stated fails for LoginForm: after a successful login submission the email
  and the password the user entered are still in \<open>formData\<close>.
\<close>

theorem C5_login_fields_kept_counterexample:
  "success ok_result \<and>
   \<not> has_keys (validateLoginForm (formData filled_login)) \<and>
   formData (fst (LoginForm_handleSubmit validateLoginForm (Some Returns) filled_login
                    (Resolved ok_result))) =
     \<lparr>email = ''test@test.com'', password = ''secret''\<rparr> \<and>
   formData (fst (LoginForm_handleSubmit validateLoginForm (Some Returns) filled_login
                    (Resolved ok_result))) \<noteq> formData LoginForm_init"
  by (simp add: LoginForm_handleSubmit_def LoginForm_submit_begin_def
      LoginForm_submit_settle_def has_keys_def validateLoginForm_def filled_login_def
      LoginForm_init_def ok_result_def)

subsection \<open>The manual-slug flag\<close>

lemma generateSlug_hello_world: "generateSlug ''Hello World'' = ''hello-world''"
  by (simp add: generateSlug_def hyphenate_def lower_char_def)

lemma title_change_slug:
  "slug (formData (PostForm_handleChange genSlug s TitleInput val)) =
     (if isSlugManuallyEdited s then slug (formData s) else genSlug val)"
  by (simp add: PostForm_handleChange_def Let_def)

lemma change_flag:
  "isSlugManuallyEdited (PostForm_handleChange genSlug s target val) =
     (target = SlugInput \<or> isSlugManuallyEdited s)"
  by (simp add: PostForm_handleChange_def Let_def)

text \<open>
  Claim C10. Every successful submission of PostForm sets \<open>isSlugManuallyEdited\<close> to
  false, whatever it was, so the next change of the title derives the slug from the
  title again.
\<close>

theorem C10_success_resets_slug_flag:
  "success r \<longrightarrow>
     \<not> isSlugManuallyEdited (fst (PostForm_submit_settle onSuccess s (Resolved r))) \<and>
     (\<not> has_keys (validate (formData s)) \<longrightarrow>
        \<not> isSlugManuallyEdited
            (fst (PostForm_handleSubmit validate onSuccess s (Resolved r))) \<and>
        slug (formData (PostForm_handleChange genSlug
                (fst (PostForm_handleSubmit validate onSuccess s (Resolved r)))
                TitleInput val)) = genSlug val)"
  by (simp add: post_settle_success post_submit_valid title_change_slug
      split: option.splits callback.splits)

theorem C10_success_resets_slug_flag_witness:
  "isSlugManuallyEdited filled_post \<and>
   \<not> isSlugManuallyEdited
       (fst (PostForm_handleSubmit validatePostForm (Some Returns) filled_post
               (Resolved ok_result))) \<and>
   slug (formData (PostForm_handleChange generateSlug
           (fst (PostForm_handleSubmit validatePostForm (Some Returns) filled_post
                   (Resolved ok_result)))
           TitleInput ''Hello World'')) = ''hello-world''"
proof -
  have a: "\<not> has_keys (validatePostForm (formData filled_post))"
    by (simp add: has_keys_def validatePostForm_def filled_post_def)
  have c: "success ok_result"
    by (simp add: ok_result_def)
  from a c generateSlug_hello_world C10_success_resets_slug_flag [of ok_result "Some Returns" filled_post
      validatePostForm generateSlug "''Hello World''"]
  show ?thesis
    by (simp add: filled_post_def)
qed

subsection \<open>The two banners\<close>

text \<open>
  Claim C2 fails on one path. The server action answers \<^verbatim>\<open>success: true\<close>, the handler
  sets the success message and calls \<^verbatim>\<open>onSuccess\<close> inside its \<^verbatim>\<open>try\<close> block; when
  the callback throws, the \<^verbatim>\<open>catch\<close> block sets the error message and does not clear
  the success message: both are non-empty.
\<close>

theorem C2_both_banners_when_callback_throws:
  "serverError (fst (PostForm_handleSubmit validatePostForm (Some Throws) filled_post
                       (Resolved ok_result))) = ''An unexpected error occurred'' \<and>
   successMessage (fst (PostForm_handleSubmit validatePostForm (Some Throws) filled_post
                          (Resolved ok_result))) = ''Post created successfully!'' \<and>
   \<not> banners_exclusive (fst (PostForm_handleSubmit validatePostForm (Some Throws) filled_post
                               (Resolved ok_result)))"
  by (simp add: PostForm_handleSubmit_def PostForm_submit_begin_def PostForm_submit_settle_def
      has_keys_def validatePostForm_def filled_post_def ok_result_def banners_exclusive_def)

text \<open>
  On every other path the two banners exclude each other: each handler, and each half
  of a submission, ends with at most one of them non-empty, as long as the callback
  does not throw.
\<close>

lemma banners_exclusive_handlers:
  "banners_exclusive (PostForm_handleChange genSlug s target val)"
  "banners_exclusive s \<Longrightarrow> banners_exclusive (PostForm_handleCategoryToggle s categoryId)"
  "banners_exclusive (PostForm_clear s)"
  "banners_exclusive (fst (PostForm_submit_begin validate s))"
  "onSuccess \<noteq> Some Throws \<Longrightarrow> serverError s = [] \<Longrightarrow> successMessage s = [] \<Longrightarrow>
     banners_exclusive (fst (PostForm_submit_settle onSuccess s outcome))"
  "onSuccess \<noteq> Some Throws \<Longrightarrow>
     banners_exclusive (fst (PostForm_handleSubmit validate onSuccess s outcome))"
proof -
  show "banners_exclusive (PostForm_handleChange genSlug s target val)"
    by (simp add: banners_exclusive_def PostForm_handleChange_def Let_def)
  show "banners_exclusive s \<Longrightarrow> banners_exclusive (PostForm_handleCategoryToggle s categoryId)"
    by (simp add: banners_exclusive_def PostForm_handleCategoryToggle_def)
  show "banners_exclusive (PostForm_clear s)"
    by (simp add: banners_exclusive_def PostForm_clear_def)
  show "banners_exclusive (fst (PostForm_submit_begin validate s))"
    by (simp add: banners_exclusive_def PostForm_submit_begin_def Let_def)
  show "banners_exclusive (fst (PostForm_submit_settle onSuccess s outcome))"
    if "onSuccess \<noteq> Some Throws" "serverError s = []" "successMessage s = []"
    using that
    by (cases outcome; cases onSuccess)
      (auto simp add: banners_exclusive_def PostForm_submit_settle_def Let_def
        split: callback.splits)
  show "banners_exclusive (fst (PostForm_handleSubmit validate onSuccess s outcome))"
    if "onSuccess \<noteq> Some Throws"
    using that
    by (cases outcome; cases onSuccess; cases "has_keys (validate (formData s))")
      (auto simp add: banners_exclusive_def post_submit_valid post_submit_invalid
        PostForm_submit_settle_def Let_def split: callback.splits)
qed

subsection \<open>Events on a mounted form\<close>

lemma post_run_Nil: "PostForm_run genSlug validate onSuccess u [] = u"
  by (simp add: PostForm_run_def)

lemma post_run_Cons:
  "PostForm_run genSlug validate onSuccess u (ev # evs) =
     PostForm_run genSlug validate onSuccess (PostForm_step genSlug validate onSuccess u ev) evs"
  by (simp add: PostForm_run_def)

lemma post_run_snoc:
  "PostForm_run genSlug validate onSuccess u (evs @ [ev]) =
     PostForm_step genSlug validate onSuccess (PostForm_run genSlug validate onSuccess u evs) ev"
  by (simp add: PostForm_run_def)

lemma login_run_Nil: "LoginForm_run validate onSuccess u [] = u"
  by (simp add: LoginForm_run_def)

lemma login_run_Cons:
  "LoginForm_run validate onSuccess u (ev # evs) =
     LoginForm_run validate onSuccess (LoginForm_step validate onSuccess u ev) evs"
  by (simp add: LoginForm_run_def)

lemma login_run_snoc:
  "LoginForm_run validate onSuccess u (evs @ [ev]) =
     LoginForm_step validate onSuccess (LoginForm_run validate onSuccess u evs) ev"
  by (simp add: LoginForm_run_def)

lemma post_step_disabled:
  "isSubmitting (component u) \<Longrightarrow>
     PostForm_step genSlug validate onSuccess u (PostChange target val) = u \<and>
     PostForm_step genSlug validate onSuccess u (PostToggle categoryId) = u \<and>
     PostForm_step genSlug validate onSuccess u PostClear = u \<and>
     PostForm_step genSlug validate onSuccess u PostSubmit = u"
  by (simp add: PostForm_step_def controls_disabled_def)

lemma login_step_disabled:
  "isSubmitting (component u) \<Longrightarrow>
     LoginForm_step validate onSuccess u (LoginChange name val) = u \<and>
     LoginForm_step validate onSuccess u LoginSubmit = u"
  by (simp add: LoginForm_step_def controls_disabled_def)

lemma post_settle_not_submitting:
  "\<not> isSubmitting (fst (PostForm_submit_settle onSuccess s outcome))"
  by (cases outcome; cases onSuccess)
    (auto simp add: PostForm_submit_settle_def Let_def split: callback.splits)

lemma login_settle_not_submitting:
  "\<not> isSubmitting (fst (LoginForm_submit_settle onSuccess s outcome))"
  by (cases outcome; cases onSuccess)
    (auto simp add: LoginForm_submit_settle_def split: callback.splits)

text \<open>
  The guard as an invariant of one step: a call is in flight exactly while
  \<open>isSubmitting\<close> is set, and there is never more than one.
\<close>

lemma post_step_guard:
  assumes "(inFlight u = []) = (\<not> isSubmitting (component u))" and "length (inFlight u) \<le> 1"
  shows "(inFlight (PostForm_step genSlug validate onSuccess u ev) = []) =
           (\<not> isSubmitting (component (PostForm_step genSlug validate onSuccess u ev))) \<and>
         length (inFlight (PostForm_step genSlug validate onSuccess u ev)) \<le> 1"
proof (cases "isSubmitting (component u)")
  case True
  with assms obtain call where one: "inFlight u = [call]"
    by (cases "inFlight u") auto
  show ?thesis
  proof (cases ev)
    case (PostSettle outcome)
    with one show ?thesis
      by (simp add: PostForm_step_def post_settle_not_submitting)
  qed (use True assms post_step_disabled [OF True] in simp_all)
next
  case False
  with assms have none: "inFlight u = []"
    by simp
  show ?thesis
  proof (cases ev)
    case (PostChange target val)
    with False none show ?thesis
      by (simp add: PostForm_step_def controls_disabled_def PostForm_handleChange_def Let_def)
  next
    case (PostToggle categoryId)
    with False none show ?thesis
      by (simp add: PostForm_step_def controls_disabled_def PostForm_handleCategoryToggle_def)
  next
    case PostClear
    with False none show ?thesis
      by (simp add: PostForm_step_def controls_disabled_def PostForm_clear_def)
  next
    case PostSubmit
    with False none show ?thesis
      by (simp add: PostForm_step_def controls_disabled_def PostForm_submit_begin_def Let_def)
  next
    case (PostSettle outcome)
    with False none show ?thesis
      by (simp add: PostForm_step_def)
  qed
qed

lemma login_step_guard:
  assumes "(inFlight u = []) = (\<not> isSubmitting (component u))" and "length (inFlight u) \<le> 1"
  shows "(inFlight (LoginForm_step validate onSuccess u ev) = []) =
           (\<not> isSubmitting (component (LoginForm_step validate onSuccess u ev))) \<and>
         length (inFlight (LoginForm_step validate onSuccess u ev)) \<le> 1"
proof (cases "isSubmitting (component u)")
  case True
  with assms obtain call where one: "inFlight u = [call]"
    by (cases "inFlight u") auto
  show ?thesis
  proof (cases ev)
    case (LoginSettle outcome)
    with one show ?thesis
      by (simp add: LoginForm_step_def login_settle_not_submitting)
  qed (use True assms login_step_disabled [OF True] in simp_all)
next
  case False
  with assms have none: "inFlight u = []"
    by simp
  show ?thesis
  proof (cases ev)
    case (LoginChange name val)
    with False none show ?thesis
      by (simp add: LoginForm_step_def controls_disabled_def LoginForm_handleChange_def Let_def)
  next
    case LoginSubmit
    with False none show ?thesis
      by (simp add: LoginForm_step_def controls_disabled_def LoginForm_submit_begin_def Let_def)
  next
    case (LoginSettle outcome)
    with False none show ?thesis
      by (simp add: LoginForm_step_def)
  qed
qed

lemma post_run_guard:
  "(inFlight u = []) = (\<not> isSubmitting (component u)) \<Longrightarrow> length (inFlight u) \<le> 1 \<Longrightarrow>
     (inFlight (PostForm_run genSlug validate onSuccess u evs) = []) =
       (\<not> isSubmitting (component (PostForm_run genSlug validate onSuccess u evs))) \<and>
     length (inFlight (PostForm_run genSlug validate onSuccess u evs)) \<le> 1"
proof (induction evs arbitrary: u)
  case Nil
  then show ?case by (simp add: post_run_Nil)
next
  case (Cons ev evs)
  let ?u' = "PostForm_step genSlug validate onSuccess u ev"
  from post_step_guard [OF Cons.prems, of genSlug validate onSuccess ev]
  have a: "(inFlight ?u' = []) = (\<not> isSubmitting (component ?u'))"
    and b: "length (inFlight ?u') \<le> 1"
    by blast+
  show ?case
    unfolding post_run_Cons by (rule Cons.IH [OF a b])
qed

lemma login_run_guard:
  "(inFlight u = []) = (\<not> isSubmitting (component u)) \<Longrightarrow> length (inFlight u) \<le> 1 \<Longrightarrow>
     (inFlight (LoginForm_run validate onSuccess u evs) = []) =
       (\<not> isSubmitting (component (LoginForm_run validate onSuccess u evs))) \<and>
     length (inFlight (LoginForm_run validate onSuccess u evs)) \<le> 1"
proof (induction evs arbitrary: u)
  case Nil
  then show ?case by (simp add: login_run_Nil)
next
  case (Cons ev evs)
  let ?u' = "LoginForm_step validate onSuccess u ev"
  from login_step_guard [OF Cons.prems, of validate onSuccess ev]
  have a: "(inFlight ?u' = []) = (\<not> isSubmitting (component ?u'))"
    and b: "length (inFlight ?u') \<le> 1"
    by blast+
  show ?case
    unfolding login_run_Cons by (rule Cons.IH [OF a b])
qed

text \<open>
  Claim C7. Whatever events reach a mounted form, at most one call of the server action
  is in flight, and one is in flight exactly while \<open>isSubmitting\<close> is set; while it is
  set, a submit event starts no call: it leaves the form as it is. Both forms.
\<close>

theorem C7_one_call_in_flight:
  "length (inFlight (PostForm_run genSlug validate onSuccess PostForm_mount evs)) \<le> 1 \<and>
   (inFlight (PostForm_run genSlug validate onSuccess PostForm_mount evs) \<noteq> []) =
     isSubmitting (component (PostForm_run genSlug validate onSuccess PostForm_mount evs)) \<and>
   (isSubmitting (component u) \<longrightarrow>
      PostForm_step genSlug validate onSuccess u PostSubmit = u) \<and>
   length (inFlight (LoginForm_run validateL onSuccessL LoginForm_mount evsL)) \<le> 1 \<and>
   (inFlight (LoginForm_run validateL onSuccessL LoginForm_mount evsL) \<noteq> []) =
     isSubmitting (component (LoginForm_run validateL onSuccessL LoginForm_mount evsL)) \<and>
   (isSubmitting (component l) \<longrightarrow> LoginForm_step validateL onSuccessL l LoginSubmit = l)"
proof -
  have p: "(inFlight PostForm_mount = []) = (\<not> isSubmitting (component PostForm_mount))"
    "length (inFlight PostForm_mount) \<le> 1"
    by (simp_all add: PostForm_mount_def PostForm_init_def)
  have q: "(inFlight LoginForm_mount = []) = (\<not> isSubmitting (component LoginForm_mount))"
    "length (inFlight LoginForm_mount) \<le> 1"
    by (simp_all add: LoginForm_mount_def LoginForm_init_def)
  from post_run_guard [OF p, of genSlug validate onSuccess evs]
    login_run_guard [OF q, of validateL onSuccessL evsL]
  show ?thesis
    by (simp add: post_step_disabled login_step_disabled)
qed

theorem C7_one_call_in_flight_witness:
  "isSubmitting (component (PostForm_run generateSlug validatePostForm (Some Returns)
      PostForm_mount
      [PostChange TitleInput ''First post'', PostChange ContentInput ''Some text'',
       PostSubmit])) \<and>
   inFlight (PostForm_run generateSlug validatePostForm (Some Returns) PostForm_mount
      ([PostChange TitleInput ''First post'', PostChange ContentInput ''Some text'',
        PostSubmit] @ [PostSubmit])) =
     [\<lparr>title = ''First post'', slug = ''first-post'', content = ''Some text'',
       categories = Some []\<rparr>] \<and>
   isSubmitting (component (LoginForm_run validateLoginForm (Some Returns) LoginForm_mount
      [LoginChange Email ''test@test.com'', LoginChange Password ''secret'', LoginSubmit])) \<and>
   inFlight (LoginForm_run validateLoginForm (Some Returns) LoginForm_mount
      ([LoginChange Email ''test@test.com'', LoginChange Password ''secret'', LoginSubmit] @
       [LoginSubmit])) = [(''test@test.com'', ''secret'')]"
proof -
  let ?u = "PostForm_run generateSlug validatePostForm (Some Returns) PostForm_mount
      [PostChange TitleInput ''First post'', PostChange ContentInput ''Some text'', PostSubmit]"
  let ?l = "LoginForm_run validateLoginForm (Some Returns) LoginForm_mount
      [LoginChange Email ''test@test.com'', LoginChange Password ''secret'', LoginSubmit]"
  have u: "?u =
      \<lparr>component = PostForm_init\<lparr>formData :=
           \<lparr>title = ''First post'', slug = ''first-post'', content = ''Some text'',
            categories = Some []\<rparr>, isSubmitting := True\<rparr>,
       inFlight = [\<lparr>title = ''First post'', slug = ''first-post'', content = ''Some text'',
            categories = Some []\<rparr>]\<rparr>"
    by (simp add: PostForm_run_def PostForm_step_def PostForm_mount_def PostForm_init_def
        emptyPost_def controls_disabled_def PostForm_handleChange_def PostForm_submit_begin_def
        has_keys_def truthy_def lookup_error_def validatePostForm_def generateSlug_def
        hyphenate_def lower_char_def Let_def)
  have l: "?l =
      \<lparr>component = LoginForm_init\<lparr>formData :=
           \<lparr>email = ''test@test.com'', password = ''secret''\<rparr>, isSubmitting := True\<rparr>,
       inFlight = [(''test@test.com'', ''secret'')]\<rparr>"
    by (simp add: LoginForm_run_def LoginForm_step_def LoginForm_mount_def LoginForm_init_def
        controls_disabled_def LoginForm_handleChange_def LoginForm_submit_begin_def
        has_keys_def truthy_def lookup_error_def validateLoginForm_def Let_def)
  have su: "isSubmitting (component ?u)"
    by (simp only: u) (simp add: PostForm_init_def)
  have sl: "isSubmitting (component ?l)"
    by (simp only: l) (simp add: LoginForm_init_def)
  from su sl C7_one_call_in_flight [of generateSlug validatePostForm "Some Returns" "[]" ?u
      validateLoginForm "Some Returns" "[]" ?l]
  have "PostForm_step generateSlug validatePostForm (Some Returns) ?u PostSubmit = ?u"
    and "LoginForm_step validateLoginForm (Some Returns) ?l LoginSubmit = ?l"
    by blast+
  then have "PostForm_run generateSlug validatePostForm (Some Returns) PostForm_mount
      ([PostChange TitleInput ''First post'', PostChange ContentInput ''Some text'',
        PostSubmit] @ [PostSubmit]) = ?u"
    and "LoginForm_run validateLoginForm (Some Returns) LoginForm_mount
      ([LoginChange Email ''test@test.com'', LoginChange Password ''secret'', LoginSubmit] @
       [LoginSubmit]) = ?l"
    by (simp_all only: post_run_snoc login_run_snoc)
  with su sl show ?thesis
    by (simp only: u l) simp
qed

subsection \<open>Slug derivation\<close>

lemma flag_kept_by_step:
  assumes "isSlugManuallyEdited (component u)" and "\<not> successful_settle ev"
  shows "isSlugManuallyEdited (component (PostForm_step genSlug validate onSuccess u ev))"
proof (cases ev)
  case (PostChange target val)
  with assms show ?thesis
    by (simp add: PostForm_step_def change_flag)
next
  case (PostToggle categoryId)
  with assms show ?thesis
    by (simp add: PostForm_step_def PostForm_handleCategoryToggle_def)
next
  case PostClear
  with assms show ?thesis
    by (simp add: PostForm_step_def PostForm_clear_def)
next
  case PostSubmit
  with assms show ?thesis
    by (simp add: PostForm_step_def PostForm_submit_begin_def Let_def)
next
  case (PostSettle outcome)
  show ?thesis
  proof (cases outcome)
    case Rejected
    with PostSettle assms show ?thesis
      by (simp add: PostForm_step_def post_settle_rejected split: list.splits)
  next
    case (Resolved r)
    with PostSettle assms have "\<not> success r"
      by (simp add: successful_settle_def)
    with Resolved PostSettle assms show ?thesis
      by (simp add: PostForm_step_def post_settle_failure split: list.splits)
  qed
qed

lemma flag_kept_by_run:
  "isSlugManuallyEdited (component u) \<Longrightarrow> \<forall>ev\<in>set evs. \<not> successful_settle ev \<Longrightarrow>
     isSlugManuallyEdited (component (PostForm_run genSlug validate onSuccess u evs))"
proof (induction evs arbitrary: u)
  case Nil
  then show ?case by (simp add: post_run_Nil)
next
  case (Cons ev evs)
  from Cons.prems have "isSlugManuallyEdited
      (component (PostForm_step genSlug validate onSuccess u ev))"
    by (simp add: flag_kept_by_step)
  with Cons.prems show ?case
    unfolding post_run_Cons by (intro Cons.IH) simp_all
qed

lemma flag_unset_by_step:
  assumes "\<not> isSlugManuallyEdited (component u)" and "\<not> slug_edit ev"
  shows "\<not> isSlugManuallyEdited (component (PostForm_step genSlug validate onSuccess u ev))"
proof (cases ev)
  case (PostChange target val)
  with assms have "target \<noteq> SlugInput"
    by (auto simp add: slug_edit_def)
  with PostChange assms show ?thesis
    by (simp add: PostForm_step_def change_flag)
next
  case (PostToggle categoryId)
  with assms show ?thesis
    by (simp add: PostForm_step_def PostForm_handleCategoryToggle_def)
next
  case PostClear
  with assms show ?thesis
    by (simp add: PostForm_step_def PostForm_clear_def)
next
  case PostSubmit
  with assms show ?thesis
    by (simp add: PostForm_step_def PostForm_submit_begin_def Let_def)
next
  case (PostSettle outcome)
  with assms show ?thesis
    by (cases outcome; cases onSuccess)
      (auto simp add: PostForm_step_def PostForm_submit_settle_def Let_def
        split: list.splits callback.splits)
qed

lemma flag_unset_by_run:
  "\<not> isSlugManuallyEdited (component u) \<Longrightarrow> \<forall>ev\<in>set evs. \<not> slug_edit ev \<Longrightarrow>
     \<not> isSlugManuallyEdited (component (PostForm_run genSlug validate onSuccess u evs))"
proof (induction evs arbitrary: u)
  case Nil
  then show ?case by (simp add: post_run_Nil)
next
  case (Cons ev evs)
  from Cons.prems have "\<not> isSlugManuallyEdited
      (component (PostForm_step genSlug validate onSuccess u ev))"
    by (simp add: flag_unset_by_step)
  with Cons.prems show ?case
    unfolding post_run_Cons by (intro Cons.IH) simp_all
qed

lemma title_step_frozen:
  "isSlugManuallyEdited (component u) \<Longrightarrow>
     slug (formData (component
       (PostForm_step genSlug validate onSuccess u (PostChange TitleInput val)))) =
     slug (formData (component u))"
  by (simp add: PostForm_step_def title_change_slug)

text \<open>
  Claim C1, as amended. A change of the title while \<open>isSlugManuallyEdited\<close> is false,
  as it is from the mount of the form until the first change event on the slug field,
  sets the title and sets the slug to \<^verbatim>\<open>generateSlug\<close> of the new title; with the
  modelled \<^verbatim>\<open>generateSlug\<close> the title \<^verbatim>\<open>Hello World\<close> gives the slug
  \<^verbatim>\<open>hello-world\<close>. After a change event on the slug field the flag stays set, and a
  change of the title leaves the slug as it is, through every sequence of events in which
  no server action answers \<^verbatim>\<open>success: true\<close>.
\<close>

theorem C1_slug_follows_title_until_edited:
  "(\<not> isSlugManuallyEdited s \<longrightarrow>
      formData (PostForm_handleChange genSlug s TitleInput val) =
        (formData s)\<lparr>title := val, slug := genSlug val\<rparr>) \<and>
   ((\<forall>ev\<in>set evs. \<not> slug_edit ev) \<longrightarrow>
      \<not> isSlugManuallyEdited
          (component (PostForm_run genSlug validate onSuccess PostForm_mount evs))) \<and>
   slug (formData (PostForm_handleChange generateSlug PostForm_init TitleInput
                     ''Hello World'')) = ''hello-world'' \<and>
   (\<not> isSubmitting (component u) \<and> (\<forall>ev\<in>set evs'. \<not> successful_settle ev) \<longrightarrow>
      isSlugManuallyEdited
        (component (PostForm_run genSlug validate onSuccess
           (PostForm_step genSlug validate onSuccess u (PostChange SlugInput val')) evs')) \<and>
      slug (formData (component
        (PostForm_step genSlug validate onSuccess
           (PostForm_run genSlug validate onSuccess
              (PostForm_step genSlug validate onSuccess u (PostChange SlugInput val')) evs')
           (PostChange TitleInput val)))) =
      slug (formData (component
        (PostForm_run genSlug validate onSuccess
           (PostForm_step genSlug validate onSuccess u (PostChange SlugInput val')) evs'))))"
proof (intro conjI impI)
  assume "\<not> isSlugManuallyEdited s"
  then show "formData (PostForm_handleChange genSlug s TitleInput val) =
      (formData s)\<lparr>title := val, slug := genSlug val\<rparr>"
    by (simp add: PostForm_handleChange_def Let_def)
next
  assume "\<forall>ev\<in>set evs. \<not> slug_edit ev"
  moreover have "\<not> isSlugManuallyEdited (component PostForm_mount)"
    by (simp add: PostForm_mount_def PostForm_init_def)
  ultimately show "\<not> isSlugManuallyEdited
      (component (PostForm_run genSlug validate onSuccess PostForm_mount evs))"
    by (simp add: flag_unset_by_run)
next
  show "slug (formData (PostForm_handleChange generateSlug PostForm_init TitleInput
      ''Hello World'')) = ''hello-world''"
    by (simp add: title_change_slug PostForm_init_def generateSlug_hello_world)
next
  let ?u = "PostForm_step genSlug validate onSuccess u (PostChange SlugInput val')"
  assume a: "\<not> isSubmitting (component u) \<and> (\<forall>ev\<in>set evs'. \<not> successful_settle ev)"
  then have "isSlugManuallyEdited (component ?u)"
    by (simp add: PostForm_step_def controls_disabled_def change_flag)
  with a show f: "isSlugManuallyEdited
      (component (PostForm_run genSlug validate onSuccess ?u evs'))"
    by (simp add: flag_kept_by_run)
  then show "slug (formData (component
        (PostForm_step genSlug validate onSuccess
           (PostForm_run genSlug validate onSuccess ?u evs') (PostChange TitleInput val)))) =
      slug (formData (component (PostForm_run genSlug validate onSuccess ?u evs')))"
    by (rule title_step_frozen)
qed

theorem C1_slug_follows_title_until_edited_witness:
  "formData (PostForm_handleChange generateSlug PostForm_init TitleInput ''Hello World'') =
     \<lparr>title = ''Hello World'', slug = ''hello-world'', content = [],
      categories = Some []\<rparr> \<and>
   \<not> isSlugManuallyEdited
       (component (PostForm_run generateSlug validatePostForm (Some Returns) PostForm_mount
          [PostChange TitleInput ''A'', PostToggle ''news''])) \<and>
   slug (formData (component
     (PostForm_step generateSlug validatePostForm (Some Returns)
        (PostForm_run generateSlug validatePostForm (Some Returns)
           (PostForm_step generateSlug validatePostForm (Some Returns) PostForm_mount
              (PostChange SlugInput ''my-slug''))
           [PostChange TitleInput ''First post'', PostChange ContentInput ''Some text'',
            PostSubmit, PostSettle (Resolved failed_result)])
        (PostChange TitleInput ''Hello World'')))) = ''my-slug''"
proof -
  let ?evs = "[PostChange TitleInput ''A'', PostToggle ''news'']"
  let ?evs' = "[PostChange TitleInput ''First post'', PostChange ContentInput ''Some text'',
            PostSubmit, PostSettle (Resolved failed_result)]"
  let ?u = "PostForm_step generateSlug validatePostForm (Some Returns) PostForm_mount
              (PostChange SlugInput ''my-slug'')"
  have a: "\<not> isSlugManuallyEdited PostForm_init"
    by (simp add: PostForm_init_def)
  have b: "\<forall>ev\<in>set ?evs. \<not> slug_edit ev"
    by (simp add: slug_edit_def)
  have c: "\<not> isSubmitting (component PostForm_mount) \<and>
      (\<forall>ev\<in>set ?evs'. \<not> successful_settle ev)"
    by (simp add: PostForm_mount_def PostForm_init_def successful_settle_def failed_result_def)
  have r: "slug (formData (component
      (PostForm_run generateSlug validatePostForm (Some Returns) ?u ?evs'))) = ''my-slug''"
    by (simp add: PostForm_run_def PostForm_step_def PostForm_mount_def PostForm_init_def
        emptyPost_def controls_disabled_def PostForm_handleChange_def PostForm_submit_begin_def
        PostForm_submit_settle_def has_keys_def truthy_def lookup_error_def
        validatePostForm_def failed_result_def Let_def)
  from a b c C1_slug_follows_title_until_edited [of PostForm_init generateSlug
      "''Hello World''" ?evs validatePostForm "Some Returns" PostForm_mount ?evs' "''my-slug''"]
  have "formData (PostForm_handleChange generateSlug PostForm_init TitleInput ''Hello World'') =
        (formData PostForm_init)\<lparr>title := ''Hello World'',
           slug := generateSlug ''Hello World''\<rparr>"
    and "\<not> isSlugManuallyEdited
       (component (PostForm_run generateSlug validatePostForm (Some Returns) PostForm_mount
          ?evs))"
    and "slug (formData (component
        (PostForm_step generateSlug validatePostForm (Some Returns)
           (PostForm_run generateSlug validatePostForm (Some Returns) ?u ?evs')
           (PostChange TitleInput ''Hello World'')))) =
      slug (formData (component
        (PostForm_run generateSlug validatePostForm (Some Returns) ?u ?evs')))"
    by blast+
  with r show ?thesis
    by (simp add: generateSlug_hello_world PostForm_init_def emptyPost_def)
qed

text \<open>
  Claim C1 as stated fails: the user edits the slug field, fills the form in and submits,
  the server action answers \<^verbatim>\<open>success: true\<close>, the handler empties the form and
  unsets \<open>isSlugManuallyEdited\<close>; the next change of the title writes the slug again.
\<close>

theorem C1_slug_derived_again_counterexample:
  "hd edit_slug_then_succeed = PostChange SlugInput ''my-slug'' \<and>
   isSlugManuallyEdited
     (component (PostForm_run generateSlug validatePostForm (Some Returns) PostForm_mount
        [hd edit_slug_then_succeed])) \<and>
   slug (formData (component
     (PostForm_run generateSlug validatePostForm (Some Returns) PostForm_mount
        edit_slug_then_succeed))) = [] \<and>
   slug (formData (component
     (PostForm_run generateSlug validatePostForm (Some Returns) PostForm_mount
        (edit_slug_then_succeed @ [PostChange TitleInput ''Hello World''])))) =
     ''hello-world''"
  by (simp add: edit_slug_then_succeed_def ok_result_def PostForm_run_def PostForm_step_def
      PostForm_mount_def PostForm_init_def emptyPost_def controls_disabled_def
      PostForm_handleChange_def PostForm_submit_begin_def PostForm_submit_settle_def
      has_keys_def truthy_def lookup_error_def validatePostForm_def generateSlug_hello_world
      Let_def)

subsection \<open>The banners over a run\<close>

lemma banners_step:
  assumes "onSuccess \<noteq> Some Throws"
    and "banners_exclusive (component u)"
    and "inFlight u \<noteq> [] \<longrightarrow> serverError (component u) = [] \<and> successMessage (component u) = []"
    and "(inFlight u = []) = (\<not> isSubmitting (component u))"
    and "length (inFlight u) \<le> 1"
  shows "banners_exclusive (component (PostForm_step genSlug validate onSuccess u ev)) \<and>
         (inFlight (PostForm_step genSlug validate onSuccess u ev) \<noteq> [] \<longrightarrow>
            serverError (component (PostForm_step genSlug validate onSuccess u ev)) = [] \<and>
            successMessage (component (PostForm_step genSlug validate onSuccess u ev)) = [])"
proof (cases "isSubmitting (component u)")
  case True
  with assms obtain call where one: "inFlight u = [call]"
    by (cases "inFlight u") auto
  show ?thesis
  proof (cases ev)
    case (PostSettle outcome)
    with one assms show ?thesis
      by (simp add: PostForm_step_def banners_exclusive_handlers)
  qed (use True assms post_step_disabled [OF True] in simp_all)
next
  case False
  with assms have none: "inFlight u = []"
    by simp
  show ?thesis
  proof (cases ev)
    case (PostChange target val)
    with False none show ?thesis
      by (simp add: PostForm_step_def controls_disabled_def banners_exclusive_handlers)
  next
    case (PostToggle categoryId)
    with False none assms show ?thesis
      by (simp add: PostForm_step_def controls_disabled_def banners_exclusive_handlers)
  next
    case PostClear
    with False none show ?thesis
      by (simp add: PostForm_step_def controls_disabled_def banners_exclusive_handlers)
  next
    case PostSubmit
    with False none show ?thesis
      by (simp add: PostForm_step_def controls_disabled_def PostForm_submit_begin_def
          banners_exclusive_def Let_def)
  next
    case (PostSettle outcome)
    with False none assms show ?thesis
      by (simp add: PostForm_step_def)
  qed
qed

lemma banners_run:
  "onSuccess \<noteq> Some Throws \<Longrightarrow> banners_exclusive (component u) \<Longrightarrow>
   inFlight u \<noteq> [] \<longrightarrow> serverError (component u) = [] \<and> successMessage (component u) = [] \<Longrightarrow>
   (inFlight u = []) = (\<not> isSubmitting (component u)) \<Longrightarrow> length (inFlight u) \<le> 1 \<Longrightarrow>
     banners_exclusive (component (PostForm_run genSlug validate onSuccess u evs))"
proof (induction evs arbitrary: u)
  case Nil
  then show ?case by (simp add: post_run_Nil)
next
  case (Cons ev evs)
  let ?u' = "PostForm_step genSlug validate onSuccess u ev"
  from banners_step [OF Cons.prems, of genSlug validate ev]
  have a: "banners_exclusive (component ?u')"
    and b: "inFlight ?u' \<noteq> [] \<longrightarrow>
      serverError (component ?u') = [] \<and> successMessage (component ?u') = []"
    by blast+
  from post_step_guard [OF Cons.prems(4,5), of genSlug validate onSuccess ev]
  have c: "(inFlight ?u' = []) = (\<not> isSubmitting (component ?u'))"
    and d: "length (inFlight ?u') \<le> 1"
    by blast+
  show ?case
    unfolding post_run_Cons by (rule Cons.IH [OF Cons.prems(1) a b c d])
qed

text \<open>
  With a callback that does not throw (or none), the two banners exclude each other
  after every sequence of events on a mounted PostForm.
\<close>

lemma banners_exclusive_unless_callback_throws:
  "onSuccess \<noteq> Some Throws \<Longrightarrow>
     banners_exclusive (component (PostForm_run genSlug validate onSuccess PostForm_mount evs))"
  by (rule banners_run)
    (simp_all add: PostForm_mount_def PostForm_init_def banners_exclusive_def)

end
